theory Spec2Isabelle
  imports Main "HOL-Library.Word" "HOL-Library.Sublist"
begin

section \<open>UVTransport: a shallow embedding of uvloop/handles/transport.pyx\<close>

text \<open>
  The transport is a Cython class with mutable fields; it talks to four collaborators
  that are not part of the file: the protocol (user code), the stream handle it inherits
  from (\<open>UVStream\<close>), the loop and the listening server. The model is explicit state
  passing over one record. Everything the transport does to a collaborator is appended to
  a trace of events, so that "the callback is invoked", "the handle is shut down" and "the
  listener is detached" are facts about the trace.

  Python exceptions are values: a method returns an \<open>outcome\<close> together with the state it
  leaves behind, because a raising method keeps the mutations it made before raising
  (and a \<open>finally\<close> block still runs).
\<close>

subsection \<open>Data\<close>

type_synonym bytes = "8 word list"

text \<open>
  Instances of Python's \<open>Exception\<close>. \<open>ValueError\<close> carries the two numbers formatted into
  its message; \<open>AttributeError\<close> and \<open>TypeError\<close> are what calling a method of \<open>None\<close>, or
  calling \<open>None\<close>, raises; \<open>OtherError\<close> is any other exception, raised by protocol code
  or reported by the I/O layer. Exceptions that are not instances of \<open>Exception\<close>
  (interpreter exit, keyboard interrupt) are outside the model.
\<close>

datatype exn =
    RuntimeError string
  | ValueError int int
  | OverflowError
  | AttributeError
  | TypeError
  | BrokenPipeError
  | ConnectionResetError
  | ConnectionAbortedError
  | OtherError nat

text \<open>The protocol handler's methods, with their arguments.\<close>

datatype callback =
    ConnectionMade
  | DataReceived bytes
  | EofReceived
  | PauseWriting
  | ResumeWriting
  | ConnectionLost "exn option"

text \<open>What a protocol method does: return (the truth value of) a result, or raise.\<close>

datatype reply = Ret bool | Raise exn

datatype event =
    CB callback                 \<comment> \<open>a protocol method was invoked\<close>
  | ExcHandler string exn       \<comment> \<open>\<open>loop.call_exception_handler\<close> with message and exception\<close>
  | HandleWrite bytes           \<comment> \<open>\<open>UVStream._write\<close>\<close>
  | StartReading
  | StopReading
  | Shutdown                    \<comment> \<open>\<open>UVStream._shutdown\<close>, the half-close\<close>
  | HandleClose                 \<comment> \<open>\<open>UVHandle._close\<close>\<close>
  | Attach nat                  \<comment> \<open>\<open>Server._attach\<close> of the listener with this id\<close>
  | Detach nat                  \<comment> \<open>\<open>Server._detach\<close>\<close>

text \<open>
  The protocol is user code. It is modelled by what it answers to each call, which may
  depend on everything that has happened on the transport so far. A protocol method that
  calls back into the transport while it runs is outside the model.
\<close>

type_synonym protocol = "event list \<Rightarrow> callback \<Rightarrow> reply"

text \<open>The two method handles the transport hands to \<open>loop._call_soon_handle\<close>.\<close>

datatype deferred = CallConnectionMade | CallConnectionLost "exn option"

datatype outcome = Returned | Raised exn

text \<open>
  The fields of \<open>UVTransport\<close> (without their leading underscore), followed by the state
  of the collaborators: \<open>closed\<close> is \<open>UVHandle._closed\<close>, \<open>reading\<close> and
  \<open>write_buffer_size\<close> belong to the stream handle, \<open>ready\<close> is the loop's queue of
  deferred calls for this transport, \<open>trace\<close> the events so far, oldest first.

  The fields of a \<open>cdef class\<close> are C variables, declared in the class's \<open>.pxd\<close>
  file, which is not part of the source at hand. The connection-loss counter is a C
  \<open>uint32_t\<close> there: \<open>self._conn_lost += 1\<close> wraps around from \<open>2^32 - 1\<close> to \<open>0\<close>, and
  the counter is a 32-bit word here.
\<close>

record transport =
  protocol :: "protocol option"
  protocol_data_received :: "protocol option"
  protocol_connected :: bool
  protocol_paused :: bool
  eof :: bool
  closing :: bool
  conn_lost :: "32 word"
  flow_control_enabled :: bool
  high_water :: int
  low_water :: int
  server :: "nat option"
  closed :: bool
  reading :: bool
  write_buffer_size :: nat
  ready :: "deferred list"
  trace :: "event list"

text \<open>
  The two constants come from an include file that is not part of the source at hand;
  they are parameters of the model.
\<close>

record constants =
  FLOW_CONTROL_HIGH_WATER :: int
  FLOW_CONTROL_LOW_WATER :: int

subsection \<open>The collaborators\<close>

text \<open>
  The loop, the stream handle and the listener are code of the repository that is not in
  the file at hand; the transport only calls them. Each is modelled from what the
  specification says of its interface, and each call leaves its mark in the trace or in
  the collaborator's part of the state.
\<close>

definition emit :: "event \<Rightarrow> transport \<Rightarrow> transport" where
  "emit e t = t\<lparr>trace := trace t @ [e]\<rparr>"

text \<open>
  Modelled from the spec: \<open>loop.call_exception_handler\<close>, the process-wide error report.
  It records the context's message and exception and returns.
\<close>

definition call_exception_handler :: "string \<Rightarrow> exn \<Rightarrow> transport \<Rightarrow> transport" where
  "call_exception_handler msg exc t = emit (ExcHandler msg exc) t"

text \<open>
  Modelled from the spec: \<open>loop._call_soon_handle\<close>, deferred scheduling. The handle is
  put at the end of the queue and runs on a later turn of the loop.
\<close>

definition call_soon_handle :: "deferred \<Rightarrow> transport \<Rightarrow> transport" where
  "call_soon_handle h t = t\<lparr>ready := ready t @ [h]\<rparr>"

text \<open>
  Modelled from the spec: \<open>UVStream._get_write_buffer_size\<close>, the number of bytes
  enqueued and not yet flushed.
\<close>

definition get_write_buffer_size :: "transport \<Rightarrow> nat" where
  "get_write_buffer_size t = write_buffer_size t"

text \<open>
  Modelled from the spec: \<open>UVStream._write\<close> enqueues the bytes, so the buffered size
  grows by their number.
\<close>

definition UVStream_write :: "bytes \<Rightarrow> transport \<Rightarrow> transport" where
  "UVStream_write data t =
     emit (HandleWrite data) (t\<lparr>write_buffer_size := write_buffer_size t + length data\<rparr>)"

text \<open>Modelled from the spec: \<open>UVStream._start_reading\<close>.\<close>

definition start_reading :: "transport \<Rightarrow> transport" where
  "start_reading t = emit StartReading (t\<lparr>reading := True\<rparr>)"

text \<open>Modelled from the spec: \<open>UVStream._stop_reading\<close>.\<close>

definition stop_reading :: "transport \<Rightarrow> transport" where
  "stop_reading t = emit StopReading (t\<lparr>reading := False\<rparr>)"

text \<open>Modelled from the spec: \<open>UVStream._is_reading\<close>.\<close>

definition is_reading :: "transport \<Rightarrow> bool" where
  "is_reading t = reading t"

text \<open>
  Modelled from the spec: \<open>UVStream._shutdown\<close>, the half-close of the underlying
  handle.
\<close>

definition shutdown :: "transport \<Rightarrow> transport" where
  "shutdown t = emit Shutdown t"

text \<open>
  Modelled from the spec: \<open>UVHandle._close\<close> releases the underlying handle; from then on
  the closed flag is set. (The public \<open>close\<close> below is another method.)
\<close>

definition handle_close :: "transport \<Rightarrow> transport" where
  "handle_close t = emit HandleClose (t\<lparr>closed := True\<rparr>)"

text \<open>
  Modelled from the spec: \<open>Server._attach\<close>. The listener counts its active connections;
  attach adds one. The call is an event on the listener's id.
\<close>

definition server_attach :: "nat \<Rightarrow> transport \<Rightarrow> transport" where
  "server_attach s t = emit (Attach s) t"

text \<open>Modelled from the spec: \<open>Server._detach\<close> takes one connection off the count.\<close>

definition server_detach :: "nat \<Rightarrow> transport \<Rightarrow> transport" where
  "server_detach s t = emit (Detach s) t"

text \<open>
  A call \<open>self._protocol.m(...)\<close>: with no protocol bound the attribute lookup on \<open>None\<close>
  raises and nothing is invoked; otherwise the call is recorded and the protocol answers.
\<close>

definition invoke :: "callback \<Rightarrow> transport \<Rightarrow> reply \<times> transport" where
  "invoke c t =
     (case protocol t of
        None \<Rightarrow> (Raise AttributeError, t)
      | Some p \<Rightarrow> (p (trace t) c, emit (CB c) t))"

text \<open>A call of the stored bound method \<open>self._protocol_data_received(buf)\<close>.\<close>

definition invoke_data_received :: "bytes \<Rightarrow> transport \<Rightarrow> reply \<times> transport" where
  "invoke_data_received buf t =
     (case protocol_data_received t of
        None \<Rightarrow> (Raise TypeError, t)
      | Some p \<Rightarrow> (p (trace t) (DataReceived buf), emit (CB (DataReceived buf)) t))"

subsection \<open>The transport\<close>

definition cinit :: "constants \<Rightarrow> transport" where
  "cinit c =
     \<lparr>protocol = None, protocol_data_received = None,
      protocol_connected = False, protocol_paused = False,
      eof = False, closing = False, conn_lost = 0,
      flow_control_enabled = True,
      high_water = FLOW_CONTROL_HIGH_WATER c, low_water = FLOW_CONTROL_LOW_WATER c,
      server = None,
      closed = False, reading = False, write_buffer_size = 0, ready = [], trace = []\<rparr>"

definition set_server :: "nat \<Rightarrow> transport \<Rightarrow> transport" where
  "set_server s t = server_attach s (t\<lparr>server := Some s\<rparr>)"

definition set_protocol :: "protocol \<Rightarrow> transport \<Rightarrow> transport" where
  "set_protocol p t = t\<lparr>protocol := Some p, protocol_data_received := Some p\<rparr>"

definition maybe_pause_protocol :: "transport \<Rightarrow> transport" where
  "maybe_pause_protocol t =
     (if \<not> flow_control_enabled t then t
      else let size = get_write_buffer_size t in
        if int size \<le> high_water t then t
        else if \<not> protocol_paused t then
          (case invoke PauseWriting (t\<lparr>protocol_paused := True\<rparr>) of
             (Raise exc, t') \<Rightarrow> call_exception_handler ''protocol.pause_writing() failed'' exc t'
           | (Ret _, t') \<Rightarrow> t')
        else t)"

definition maybe_resume_protocol :: "transport \<Rightarrow> transport" where
  "maybe_resume_protocol t =
     (if \<not> flow_control_enabled t then t
      else let size = get_write_buffer_size t in
        if protocol_paused t \<and> int size \<le> low_water t then
          (case invoke ResumeWriting (t\<lparr>protocol_paused := False\<rparr>) of
             (Raise exc, t') \<Rightarrow> call_exception_handler ''protocol.resume_writing() failed'' exc t'
           | (Ret _, t') \<Rightarrow> t')
        else t)"

definition call_connection_made :: "transport \<Rightarrow> outcome \<times> transport" where
  "call_connection_made t =
     (if protocol t = None then
        (Raised (RuntimeError ''protocol is not set, cannot call connection_made()''), t)
      else
        (case invoke ConnectionMade t of
           (Raise exc, t') \<Rightarrow> (Raised exc, t')
         | (Ret _, t') \<Rightarrow> (Returned, start_reading (t'\<lparr>protocol_connected := True\<rparr>))))"

definition schedule_call_connection_made :: "transport \<Rightarrow> transport" where
  "schedule_call_connection_made t = call_soon_handle CallConnectionMade t"

text \<open>
  \<open>_call_connection_lost\<close>: the body of the \<open>try\<close> gives an outcome; the \<open>finally\<close> block
  runs on the state the body left, whatever the outcome, and the outcome is passed on.
\<close>

definition call_connection_lost :: "exn option \<Rightarrow> transport \<Rightarrow> outcome \<times> transport" where
  "call_connection_lost exc t =
     (if closed t then (Returned, t)
      else
        let (r, t1) =
              (if protocol_connected t then
                 (case invoke (ConnectionLost exc) t of
                    (Raise e, t') \<Rightarrow> (Raised e, t')
                  | (Ret _, t') \<Rightarrow> (Returned, t'))
               else (Returned, t));
            t2 = t1\<lparr>protocol := None, protocol_data_received := None\<rparr>;
            t3 = (case server t2 of
                    None \<Rightarrow> t2
                  | Some s \<Rightarrow> (server_detach s t2)\<lparr>server := None\<rparr>)
        in (r, handle_close t3))"

definition schedule_call_connection_lost :: "exn option \<Rightarrow> transport \<Rightarrow> transport" where
  "schedule_call_connection_lost exc t = call_soon_handle (CallConnectionLost exc) t"

definition force_close :: "exn option \<Rightarrow> transport \<Rightarrow> transport" where
  "force_close exc t =
     (if conn_lost t \<noteq> 0 \<or> closed t then t
      else
        let t1 = (if \<not> closing t then stop_reading (t\<lparr>closing := True\<rparr>) else t);
            t2 = t1\<lparr>conn_lost := conn_lost t1 + 1\<rparr>
        in schedule_call_connection_lost None t2)"

definition fatal_error :: "exn \<Rightarrow> bool \<Rightarrow> transport \<Rightarrow> transport" where
  "fatal_error exc throw t =
     (let t1 = (if exc \<notin> {BrokenPipeError, ConnectionResetError, ConnectionAbortedError}
                then call_exception_handler ''Fatal error on transport'' exc t
                else t)
      in force_close (Some exc) t1)"

definition on_accept :: "transport \<Rightarrow> transport" where
  "on_accept t = schedule_call_connection_made t"

definition on_read :: "bytes \<Rightarrow> transport \<Rightarrow> outcome \<times> transport" where
  "on_read buf t =
     (case invoke_data_received buf t of
        (Raise exc, t') \<Rightarrow> (Raised exc, t')
      | (Ret _, t') \<Rightarrow> (Returned, t'))"

definition on_write :: "transport \<Rightarrow> outcome \<times> transport" where
  "on_write t =
     (let t1 = maybe_resume_protocol t in
      if get_write_buffer_size t1 = 0 then
        if closing t1 then call_connection_lost None t1
        else if eof t1 then (Returned, shutdown t1)
        else (Returned, t1)
      else (Returned, t1))"

text \<open>The cdef method \<open>_write\<close>, which overloads the stream handle's.\<close>

definition write_cdef :: "bytes \<Rightarrow> transport \<Rightarrow> transport" where
  "write_cdef data t = maybe_pause_protocol (UVStream_write data t)"

subsection \<open>Public API\<close>

text \<open>The public method \<open>write\<close> is \<open>transport_write\<close> here: \<open>write\<close> is a keyword of Isabelle.\<close>

definition abort :: "transport \<Rightarrow> outcome \<times> transport" where
  "abort t = (Returned, force_close None t)"

definition close :: "transport \<Rightarrow> outcome \<times> transport" where
  "close t =
     (if closing t \<or> closed t then (Returned, t)
      else
        let t1 = stop_reading (t\<lparr>closing := True\<rparr>) in
        if get_write_buffer_size t1 = 0 then
          (Returned, schedule_call_connection_lost None (t1\<lparr>conn_lost := conn_lost t1 + 1\<rparr>))
        else (Returned, t1))"

definition is_closing :: "transport \<Rightarrow> bool" where
  "is_closing t = closing t"

definition transport_write :: "bytes \<Rightarrow> transport \<Rightarrow> outcome \<times> transport" where
  "transport_write buf t =
     (if eof t then (Raised (RuntimeError ''Cannot call write() after write_eof()''), t)
      else if buf = [] then (Returned, t)
      else if conn_lost t \<noteq> 0 then (Returned, t\<lparr>conn_lost := conn_lost t + 1\<rparr>)
      else (Returned, maybe_pause_protocol (write_cdef buf t)))"

text \<open>The loop of \<open>writelines\<close> stops at the first \<open>write\<close> that raises.\<close>

fun writelines :: "bytes list \<Rightarrow> transport \<Rightarrow> outcome \<times> transport" where
  "writelines [] t = (Returned, t)"
| "writelines (buf # bufs) t =
     (case transport_write buf t of
        (Raised e, t') \<Rightarrow> (Raised e, t')
      | (Returned, t') \<Rightarrow> writelines bufs t')"

definition write_eof :: "transport \<Rightarrow> outcome \<times> transport" where
  "write_eof t =
     (if eof t then (Returned, t)
      else
        let t1 = t\<lparr>eof := True\<rparr> in
        if get_write_buffer_size t1 = 0 then (Returned, shutdown t1)
        else (Returned, t1))"

definition on_eof :: "transport \<Rightarrow> outcome \<times> transport" where
  "on_eof t =
     (case invoke EofReceived t of
        (Raise exc, t') \<Rightarrow> (Raised exc, t')
      | (Ret keep_open, t') \<Rightarrow>
          if keep_open then (Returned, stop_reading t') else close t')"

definition pause_reading :: "transport \<Rightarrow> outcome \<times> transport" where
  "pause_reading t =
     (if closing t then (Raised (RuntimeError ''Cannot pause_reading() when closing''), t)
      else if \<not> is_reading t then (Raised (RuntimeError ''Already paused''), t)
      else (Returned, stop_reading t))"

definition resume_reading :: "transport \<Rightarrow> outcome \<times> transport" where
  "resume_reading t =
     (if is_reading t then (Raised (RuntimeError ''Not paused''), t)
      else if closing t then (Returned, t)
      else (Returned, start_reading t))"

text \<open>
  The parameters of \<open>_set_write_buffer_limits\<close> are C \<open>int\<close>s with default \<open>-1\<close>. Its
  division is Python's floor division, which is \<open>div\<close> on \<open>int\<close>; nothing in the body
  can overflow.
\<close>

definition set_write_buffer_limits_cdef ::
    "constants \<Rightarrow> int \<Rightarrow> int \<Rightarrow> transport \<Rightarrow> outcome \<times> transport" where
  "set_write_buffer_limits_cdef c high low t =
     (let high1 = (if high = -1
                   then (if low = -1 then FLOW_CONTROL_HIGH_WATER c
                         else FLOW_CONTROL_LOW_WATER c)
                   else high);
          low1 = (if low = -1 then high1 div 4 else low)
      in if \<not> (high1 \<ge> low1 \<and> low1 \<ge> 0) then (Raised (ValueError high1 low1), t)
         else (Returned,
               maybe_resume_protocol
                 (maybe_pause_protocol (t\<lparr>high_water := high1, low_water := low1\<rparr>))))"

text \<open>
  A Python integer passed for a C \<open>int\<close> parameter is converted at the call; a value
  that does not fit 32 bits raises \<open>OverflowError\<close> there, before the callee runs.
\<close>

definition c_int :: "int \<Rightarrow> bool" where
  "c_int n = (- (2 ^ 31) \<le> n \<and> n < 2 ^ 31)"

definition set_write_buffer_limits ::
    "constants \<Rightarrow> int option \<Rightarrow> int option \<Rightarrow> transport \<Rightarrow> outcome \<times> transport" where
  "set_write_buffer_limits c high low t =
     (let high1 = (case high of None \<Rightarrow> -1 | Some h \<Rightarrow> h);
          low1 = (case low of None \<Rightarrow> -1 | Some l \<Rightarrow> l)
      in if \<not> c_int high1 \<or> \<not> c_int low1 then (Raised OverflowError, t)
         else set_write_buffer_limits_cdef c high1 low1 t)"

definition get_write_buffer_limits :: "transport \<Rightarrow> int \<times> int" where
  "get_write_buffer_limits t = (low_water t, high_water t)"

subsection \<open>The environment: completed writes, the loop, sequences of operations\<close>

text \<open>
  Modelled from the spec: when the handle has flushed \<open>n\<close> more bytes the buffered size
  goes down by \<open>n\<close> (it never goes below zero) and the handle calls the transport's
  \<open>_on_write\<close> hook.
\<close>

definition write_completed :: "nat \<Rightarrow> transport \<Rightarrow> outcome \<times> transport" where
  "write_completed n t = on_write (t\<lparr>write_buffer_size := write_buffer_size t - n\<rparr>)"

text \<open>
  A method handle calls the method it was made for, with the argument stored in it
  (\<open>new_MethodHandle\<close> for \<open>_call_connection_made\<close>, \<open>new_MethodHandle1\<close> for
  \<open>_call_connection_lost\<close> and its \<open>exc\<close>).
\<close>

fun run_deferred :: "deferred \<Rightarrow> transport \<Rightarrow> outcome \<times> transport" where
  "run_deferred CallConnectionMade t = call_connection_made t"
| "run_deferred (CallConnectionLost exc) t = call_connection_lost exc t"

text \<open>
  Modelled from the spec: one turn of the loop takes the oldest deferred call off the
  queue and runs it.
\<close>

definition run_ready :: "transport \<Rightarrow> outcome \<times> transport" where
  "run_ready t =
     (case ready t of
        [] \<Rightarrow> (Returned, t)
      | h # hs \<Rightarrow> run_deferred h (t\<lparr>ready := hs\<rparr>))"

text \<open>
  Everything that can happen to a transport: the public methods, the hooks the stream
  handle calls, the binding calls of whoever creates the transport, and a turn of the
  loop.
\<close>

datatype op =
    Abort
  | Close
  | Write bytes
  | Writelines "bytes list"
  | WriteEof
  | PauseReading
  | ResumeReading
  | SetWriteBufferLimits "int option" "int option"
  | SetProtocol protocol
  | SetServer nat
  | OnAccept
  | OnRead bytes
  | OnEof
  | WriteCompleted nat
  | FatalError exn bool
  | RunReady

fun exec :: "constants \<Rightarrow> op \<Rightarrow> transport \<Rightarrow> outcome \<times> transport" where
  "exec c Abort t = abort t"
| "exec c Close t = close t"
| "exec c (Write buf) t = transport_write buf t"
| "exec c (Writelines bufs) t = writelines bufs t"
| "exec c WriteEof t = write_eof t"
| "exec c PauseReading t = pause_reading t"
| "exec c ResumeReading t = resume_reading t"
| "exec c (SetWriteBufferLimits high low) t = set_write_buffer_limits c high low t"
| "exec c (SetProtocol p) t = (Returned, set_protocol p t)"
| "exec c (SetServer s) t = (Returned, set_server s t)"
| "exec c OnAccept t = (Returned, on_accept t)"
| "exec c (OnRead buf) t = on_read buf t"
| "exec c OnEof t = on_eof t"
| "exec c (WriteCompleted n) t = write_completed n t"
| "exec c (FatalError exc throw) t = (Returned, fatal_error exc throw t)"
| "exec c RunReady t = run_ready t"

text \<open>
  A sequence of operations. An exception goes to the caller of the operation that raised
  it; the transport stays as that operation left it and the next operation finds it so.
\<close>

fun run :: "constants \<Rightarrow> op list \<Rightarrow> transport \<Rightarrow> transport" where
  "run c [] t = t"
| "run c (x # xs) t = run c xs (snd (exec c x t))"

subsection \<open>Reading a trace\<close>

fun is_lost :: "event \<Rightarrow> bool" where
  "is_lost (CB (ConnectionLost exc)) = True"
| "is_lost e = False"

fun is_detach :: "event \<Rightarrow> bool" where
  "is_detach (Detach s) = True"
| "is_detach e = False"

text \<open>
  A scan of the trace from the oldest event on: every \<open>connection_lost\<close> finds that
  \<open>connection_made\<close> was invoked earlier (or \<open>made\<close> holds at the start).
\<close>

fun made_before_lost :: "bool \<Rightarrow> event list \<Rightarrow> bool" where
  "made_before_lost made [] = True"
| "made_before_lost made (e # es) =
     ((is_lost e \<longrightarrow> made) \<and> made_before_lost (made \<or> e = CB ConnectionMade) es)"

text \<open>
  A step that is no part of the teardown: it only adds events, none of them a
  \<open>connection_lost\<close> or a detach, leaves the closed and connected flags alone and defers
  nothing but \<open>_call_connection_made\<close> and \<open>_call_connection_lost(None)\<close>.
\<close>

definition quiet_step :: "transport \<Rightarrow> transport \<Rightarrow> bool" where
  "quiet_step t t' \<longleftrightarrow>
     prefix (trace t) (trace t') \<and>
     filter is_lost (trace t') = filter is_lost (trace t) \<and>
     filter is_detach (trace t') = filter is_detach (trace t) \<and>
     closed t' = closed t \<and>
     protocol_connected t' = protocol_connected t \<and>
     set (ready t') \<subseteq> insert CallConnectionMade (insert (CallConnectionLost None) (set (ready t)))"

text \<open>What every reachable transport satisfies.\<close>

definition lifecycle_inv :: "transport \<Rightarrow> bool" where
  "lifecycle_inv t \<longleftrightarrow>
     made_before_lost False (trace t) \<and>
     length (filter is_lost (trace t)) \<le> 1 \<and>
     length (filter is_detach (trace t)) \<le> 1 \<and>
     (protocol_connected t \<longrightarrow> CB ConnectionMade \<in> set (trace t)) \<and>
     (\<not> closed t \<longrightarrow> filter is_lost (trace t) = [] \<and> filter is_detach (trace t) = []) \<and>
     (\<forall>x. CB (ConnectionLost x) \<in> set (trace t) \<longrightarrow> x = None) \<and>
     (\<forall>x. CallConnectionLost x \<in> set (ready t) \<longrightarrow> x = None)"

text \<open>Once the handle is closed it stays closed and no \<open>connection_lost\<close> is added.\<close>

definition sealed :: "transport \<Rightarrow> transport \<Rightarrow> bool" where
  "sealed t t' \<longleftrightarrow> closed t' \<and> filter is_lost (trace t') = filter is_lost (trace t)"

subsection \<open>Arguments of \<open>set_write_buffer_limits\<close>\<close>

text \<open>An argument that is absent, or an integer that converts to a C \<open>int\<close>.\<close>

fun fits_c_int :: "int option \<Rightarrow> bool" where
  "fits_c_int None = True"
| "fits_c_int (Some n) = c_int n"

text \<open>
  What the code takes for "not given": \<open>None\<close>, which the public method turns into
  \<open>-1\<close>, and the number \<open>-1\<close> itself.
\<close>

fun unspecified :: "int option \<Rightarrow> bool" where
  "unspecified None = True"
| "unspecified (Some n) = (n = -1)"

text \<open>The argument if it is given, the default \<open>d\<close> if it is not.\<close>

fun given_or :: "int \<Rightarrow> int option \<Rightarrow> int" where
  "given_or d None = d"
| "given_or d (Some n) = (if n = -1 then d else n)"

subsection \<open>Concrete transports\<close>

text \<open>
  Values for the two constants: 64 KiB for the high-water mark, as the specification
  suggests, and a quarter of it for the low-water mark.
\<close>

definition uv_constants :: constants where
  "uv_constants = \<lparr>FLOW_CONTROL_HIGH_WATER = 65536, FLOW_CONTROL_LOW_WATER = 16384\<rparr>"

text \<open>A protocol whose methods all return a false value, and one whose
  \<open>connection_lost\<close> raises.\<close>

definition quiet :: protocol where
  "quiet tr c = Ret False"

definition lost_raises :: protocol where
  "lost_raises tr c = (case c of ConnectionLost exc \<Rightarrow> Raise (OtherError 1) | _ \<Rightarrow> Ret False)"

text \<open>An accepted connection of listener 7 after \<open>connection_made\<close> was delivered.\<close>

definition connected :: "protocol \<Rightarrow> transport" where
  "connected p = run uv_constants [SetProtocol p, SetServer 7, OnAccept, RunReady] (cinit uv_constants)"

subsection \<open>Unfolding the collaborators\<close>

lemmas prim_defs = emit_def call_exception_handler_def call_soon_handle_def
  get_write_buffer_size_def UVStream_write_def start_reading_def stop_reading_def
  is_reading_def shutdown_def handle_close_def server_attach_def server_detach_def
  invoke_def invoke_data_received_def schedule_call_connection_made_def
  schedule_call_connection_lost_def

lemmas api_defs = abort_def close_def transport_write_def write_cdef_def write_eof_def
  on_eof_def pause_reading_def resume_reading_def set_write_buffer_limits_def
  set_write_buffer_limits_cdef_def c_int_def on_write_def write_completed_def run_ready_def
  call_connection_made_def call_connection_lost_def force_close_def fatal_error_def
  on_accept_def on_read_def set_protocol_def set_server_def maybe_pause_protocol_def
  maybe_resume_protocol_def cinit_def uv_constants_def quiet_def lost_raises_def

section \<open>Steps that are no part of the teardown\<close>

lemma made_before_lost_append:
  "made_before_lost m (xs @ ys) =
     (made_before_lost m xs \<and> made_before_lost (m \<or> CB ConnectionMade \<in> set xs) ys)"
  by (induction xs arbitrary: m) (auto simp: eq_commute [of "CB ConnectionMade"])

lemma made_before_lost_no_lost: "filter is_lost es = [] \<Longrightarrow> made_before_lost m es"
  by (induction es arbitrary: m) (auto split: if_splits)

lemma subset_insert2: "A \<subseteq> insert x (insert y A)"
  by blast

lemma quiet_step_refl: "quiet_step t t"
  by (auto simp: subset_insert2 quiet_step_def)

lemma quiet_step_trans: "quiet_step t t' \<Longrightarrow> quiet_step t' t'' \<Longrightarrow> quiet_step t t''"
  unfolding quiet_step_def by (intro conjI) (auto dest: prefix_order.trans)

lemma quiet_step_inv:
  assumes "lifecycle_inv t" and "quiet_step t t'"
  shows "lifecycle_inv t'"
proof -
  from assms(2) obtain es where es: "trace t' = trace t @ es"
    by (auto simp: subset_insert2 quiet_step_def prefix_def)
  from assms(2) have fl: "filter is_lost (trace t') = filter is_lost (trace t)"
    and fd: "filter is_detach (trace t') = filter is_detach (trace t)"
    and cl: "closed t' = closed t" and pc: "protocol_connected t' = protocol_connected t"
    and rd: "set (ready t') \<subseteq> insert CallConnectionMade (insert (CallConnectionLost None) (set (ready t)))"
    by (simp_all add: quiet_step_def)
  from fl es have "filter is_lost es = []" by simp
  then have "made_before_lost m es" for m by (rule made_before_lost_no_lost)
  with assms(1) have 1: "made_before_lost False (trace t')"
    by (simp add: lifecycle_inv_def es made_before_lost_append)
  have 6: "x = None" if "CB (ConnectionLost x) \<in> set (trace t')" for x
  proof -
    from that have "CB (ConnectionLost x) \<in> set (filter is_lost (trace t'))" by simp
    then have "CB (ConnectionLost x) \<in> set (trace t)" unfolding fl by simp
    with assms(1) show ?thesis by (simp add: lifecycle_inv_def)
  qed
  have 7: "x = None" if "CallConnectionLost x \<in> set (ready t')" for x
    using that rd assms(1) by (auto simp: lifecycle_inv_def)
  from assms(1) have 4: "protocol_connected t' \<longrightarrow> CB ConnectionMade \<in> set (trace t')"
    by (simp add: lifecycle_inv_def pc es)
  from assms(1) 1 4 6 7 show ?thesis
    unfolding lifecycle_inv_def fl fd cl by blast
qed

lemma quiet_maybe_pause_protocol: "quiet_step t (maybe_pause_protocol t)"
  by (simp add: subset_insert2 quiet_step_def maybe_pause_protocol_def prim_defs Let_def
      split: option.splits reply.splits)

lemma quiet_maybe_resume_protocol: "quiet_step t (maybe_resume_protocol t)"
  by (simp add: subset_insert2 quiet_step_def maybe_resume_protocol_def prim_defs Let_def
      split: option.splits reply.splits)

lemma quiet_force_close: "quiet_step t (force_close exc t)"
  by (auto simp: subset_insert2 quiet_step_def force_close_def prim_defs Let_def)

lemma quiet_fatal_error: "quiet_step t (fatal_error exc throw t)"
proof -
  have "quiet_step t (call_exception_handler msg exc t)" for msg
    by (simp add: subset_insert2 quiet_step_def prim_defs)
  then show ?thesis
    unfolding fatal_error_def Let_def
    by (auto intro: quiet_step_trans quiet_force_close)
qed

lemma quiet_close: "quiet_step t (snd (close t))"
  by (auto simp: subset_insert2 quiet_step_def close_def prim_defs Let_def)

lemma quiet_abort: "quiet_step t (snd (abort t))"
  by (simp add: abort_def quiet_force_close)

lemma quiet_on_accept: "quiet_step t (on_accept t)"
  by (auto simp: subset_insert2 quiet_step_def on_accept_def prim_defs)

lemma quiet_on_read: "quiet_step t (snd (on_read buf t))"
  by (simp add: subset_insert2 quiet_step_def on_read_def prim_defs split: option.splits reply.splits)

lemma quiet_write_cdef: "quiet_step t (write_cdef buf t)"
proof -
  have "quiet_step t (UVStream_write buf t)"
    by (simp add: subset_insert2 quiet_step_def prim_defs)
  then show ?thesis
    unfolding write_cdef_def by (rule quiet_step_trans) (rule quiet_maybe_pause_protocol)
qed

lemma quiet_transport_write: "quiet_step t (snd (transport_write buf t))"
proof -
  have "quiet_step t (t\<lparr>conn_lost := n\<rparr>)" for n
    by (simp add: subset_insert2 quiet_step_def)
  moreover have "quiet_step t (maybe_pause_protocol (write_cdef buf t))"
    using quiet_write_cdef quiet_maybe_pause_protocol by (rule quiet_step_trans)
  ultimately show ?thesis
    by (simp add: transport_write_def quiet_step_refl)
qed

lemma quiet_writelines: "quiet_step t (snd (writelines bufs t))"
proof (induction bufs arbitrary: t)
  case Nil
  show ?case by (simp add: quiet_step_refl)
next
  case (Cons buf bufs)
  have w: "quiet_step t (snd (transport_write buf t))" by (rule quiet_transport_write)
  show ?case
  proof (cases "transport_write buf t")
    case (Pair r t')
    with w have "quiet_step t t'" by simp
    with Pair Cons.IH [of t'] show ?thesis
      by (cases r) (auto intro: quiet_step_trans)
  qed
qed

lemma quiet_write_eof: "quiet_step t (snd (write_eof t))"
  by (simp add: subset_insert2 quiet_step_def write_eof_def prim_defs Let_def)

lemma quiet_on_eof: "quiet_step t (snd (on_eof t))"
proof (cases "invoke EofReceived t")
  case (Pair r t')
  have i: "quiet_step t t'"
    using Pair by (auto simp: subset_insert2 quiet_step_def prim_defs split: option.splits)
  have "quiet_step t' (stop_reading t')" by (simp add: subset_insert2 quiet_step_def prim_defs)
  with i quiet_close [of t'] Pair show ?thesis
    by (cases r) (auto simp: on_eof_def intro: quiet_step_trans)
qed

lemma quiet_pause_reading: "quiet_step t (snd (pause_reading t))"
  by (simp add: subset_insert2 quiet_step_def pause_reading_def prim_defs)

lemma quiet_resume_reading: "quiet_step t (snd (resume_reading t))"
  by (simp add: subset_insert2 quiet_step_def resume_reading_def prim_defs)

lemma quiet_set_write_buffer_limits_cdef:
  "quiet_step t (snd (set_write_buffer_limits_cdef c high low t))"
proof -
  have "quiet_step t (t\<lparr>high_water := h, low_water := l\<rparr>)" for h l
    by (simp add: subset_insert2 quiet_step_def)
  then have "quiet_step t (maybe_resume_protocol (maybe_pause_protocol (t\<lparr>high_water := h, low_water := l\<rparr>)))" for h l
    by (blast intro: quiet_step_trans quiet_maybe_pause_protocol quiet_maybe_resume_protocol)
  then show ?thesis
    by (simp add: set_write_buffer_limits_cdef_def Let_def quiet_step_refl)
qed

lemma quiet_set_write_buffer_limits:
  "quiet_step t (snd (set_write_buffer_limits c high low t))"
  by (simp add: set_write_buffer_limits_def Let_def quiet_step_refl
      quiet_set_write_buffer_limits_cdef)

lemma quiet_set_protocol: "quiet_step t (set_protocol p t)"
  by (simp add: subset_insert2 quiet_step_def set_protocol_def)

lemma quiet_set_server: "quiet_step t (set_server s t)"
  by (simp add: subset_insert2 quiet_step_def set_server_def prim_defs)

section \<open>The lifecycle invariant\<close>

lemma inv_cinit: "lifecycle_inv (cinit c)"
  by (simp add: lifecycle_inv_def cinit_def)

lemma inv_call_connection_made:
  "lifecycle_inv t \<Longrightarrow> lifecycle_inv (snd (call_connection_made t))"
  by (auto simp: lifecycle_inv_def call_connection_made_def prim_defs made_before_lost_append
      split: option.splits reply.splits)

lemma inv_call_connection_lost:
  "lifecycle_inv t \<Longrightarrow> lifecycle_inv (snd (call_connection_lost None t))"
  by (auto simp: lifecycle_inv_def call_connection_lost_def prim_defs made_before_lost_append
      Let_def split: option.splits reply.splits)

lemma inv_on_write: "lifecycle_inv t \<Longrightarrow> lifecycle_inv (snd (on_write t))"
proof -
  assume "lifecycle_inv t"
  then have r: "lifecycle_inv (maybe_resume_protocol t)"
    using quiet_maybe_resume_protocol by (rule quiet_step_inv)
  have "quiet_step u (shutdown u)" for u
    by (simp add: quiet_step_def prim_defs subset_insert2)
  with r have "lifecycle_inv (shutdown (maybe_resume_protocol t))"
    by (rule quiet_step_inv)
  with r show ?thesis
    by (simp add: on_write_def Let_def inv_call_connection_lost)
qed

lemma inv_write_completed: "lifecycle_inv t \<Longrightarrow> lifecycle_inv (snd (write_completed n t))"
proof -
  assume "lifecycle_inv t"
  then have "lifecycle_inv (t\<lparr>write_buffer_size := write_buffer_size t - n\<rparr>)"
    by (simp add: lifecycle_inv_def)
  then show ?thesis
    unfolding write_completed_def by (rule inv_on_write)
qed

lemma inv_run_ready: "lifecycle_inv t \<Longrightarrow> lifecycle_inv (snd (run_ready t))"
proof (cases "ready t")
  case Nil
  assume "lifecycle_inv t"
  with Nil show ?thesis by (simp add: run_ready_def)
next
  case (Cons h hs)
  assume i: "lifecycle_inv t"
  with Cons have p: "lifecycle_inv (t\<lparr>ready := hs\<rparr>)"
    by (simp add: lifecycle_inv_def)
  show ?thesis
  proof (cases h)
    case CallConnectionMade
    with Cons p show ?thesis
      by (simp add: run_ready_def inv_call_connection_made)
  next
    case (CallConnectionLost x)
    with Cons i have "x = None" by (simp add: lifecycle_inv_def)
    with CallConnectionLost Cons p show ?thesis
      by (simp add: run_ready_def inv_call_connection_lost)
  qed
qed

lemma inv_exec: "lifecycle_inv t \<Longrightarrow> lifecycle_inv (snd (exec c x t))"
proof (cases x)
qed (simp_all add: inv_on_write inv_write_completed inv_run_ready
      quiet_step_inv [OF _ quiet_abort] quiet_step_inv [OF _ quiet_close]
      quiet_step_inv [OF _ quiet_transport_write] quiet_step_inv [OF _ quiet_writelines]
      quiet_step_inv [OF _ quiet_write_eof] quiet_step_inv [OF _ quiet_pause_reading]
      quiet_step_inv [OF _ quiet_resume_reading]
      quiet_step_inv [OF _ quiet_set_write_buffer_limits]
      quiet_step_inv [OF _ quiet_set_protocol] quiet_step_inv [OF _ quiet_set_server]
      quiet_step_inv [OF _ quiet_on_accept] quiet_step_inv [OF _ quiet_on_read]
      quiet_step_inv [OF _ quiet_on_eof] quiet_step_inv [OF _ quiet_fatal_error])

lemma inv_run: "lifecycle_inv t \<Longrightarrow> lifecycle_inv (run c xs t)"
  by (induction xs arbitrary: t) (simp_all add: inv_exec)

lemma made_before_lost_split:
  "made_before_lost m (pre @ CB (ConnectionLost x) # post) \<Longrightarrow> m \<or> CB ConnectionMade \<in> set pre"
  by (simp add: made_before_lost_append)

lemma sealed_quiet: "closed t \<Longrightarrow> quiet_step t t' \<Longrightarrow> sealed t t'"
  by (simp add: sealed_def quiet_step_def)

lemma sealed_call_connection_made: "closed t \<Longrightarrow> sealed t (snd (call_connection_made t))"
  by (simp add: sealed_def call_connection_made_def prim_defs split: option.splits reply.splits)

lemma sealed_on_write: "closed t \<Longrightarrow> sealed t (snd (on_write t))"
proof -
  assume c: "closed t"
  have q: "quiet_step t (maybe_resume_protocol t)" by (rule quiet_maybe_resume_protocol)
  with c have "sealed t (maybe_resume_protocol t)" by (rule sealed_quiet)
  then show ?thesis
    by (simp add: on_write_def Let_def call_connection_lost_def sealed_def prim_defs)
qed

lemma sealed_exec: "closed t \<Longrightarrow> sealed t (snd (exec c x t))"
proof (cases x)
  case (WriteCompleted n)
  assume "closed t"
  then have "closed (t\<lparr>write_buffer_size := write_buffer_size t - n\<rparr>)" by simp
  then have "sealed (t\<lparr>write_buffer_size := write_buffer_size t - n\<rparr>) (snd (write_completed n t))"
    unfolding write_completed_def by (rule sealed_on_write)
  with WriteCompleted show ?thesis by (simp add: sealed_def)
next
  case RunReady
  assume c: "closed t"
  show ?thesis
  proof (cases "ready t")
    case Nil
    with RunReady c show ?thesis by (simp add: run_ready_def sealed_def)
  next
    case (Cons h hs)
    from c have "sealed (t\<lparr>ready := hs\<rparr>) (snd (call_connection_made (t\<lparr>ready := hs\<rparr>)))"
      by (simp add: sealed_call_connection_made)
    with Cons RunReady c show ?thesis
      by (cases h) (simp_all add: run_ready_def sealed_def call_connection_lost_def)
  qed
qed (simp_all add: sealed_quiet quiet_abort quiet_close quiet_transport_write quiet_writelines
      quiet_write_eof quiet_pause_reading quiet_resume_reading quiet_set_write_buffer_limits
      quiet_set_protocol quiet_set_server quiet_on_accept quiet_on_read quiet_on_eof
      quiet_fatal_error)

lemma sealed_run: "closed t \<Longrightarrow> sealed t (run c xs t)"
proof (induction xs arbitrary: t)
  case Nil
  then show ?case by (simp add: sealed_def)
next
  case (Cons x xs)
  from Cons.prems have s: "sealed t (snd (exec c x t))" by (rule sealed_exec)
  then have "closed (snd (exec c x t))" by (simp add: sealed_def)
  then have "sealed (snd (exec c x t)) (run c xs (snd (exec c x t)))" by (rule Cons.IH)
  with s show ?case by (simp add: sealed_def)
qed

section \<open>What the checks and the write-completion hook leave alone\<close>

lemma maybe_resume_protocol_frame:
  "closing (maybe_resume_protocol t) = closing t"
  "closed (maybe_resume_protocol t) = closed t"
  "eof (maybe_resume_protocol t) = eof t"
  "ready (maybe_resume_protocol t) = ready t"
  "protocol (maybe_resume_protocol t) = protocol t"
  "server (maybe_resume_protocol t) = server t"
  "protocol_connected (maybe_resume_protocol t) = protocol_connected t"
  "write_buffer_size (maybe_resume_protocol t) = write_buffer_size t"
  "filter is_lost (trace (maybe_resume_protocol t)) = filter is_lost (trace t)"
  "filter ((=) Shutdown) (trace (maybe_resume_protocol t)) = filter ((=) Shutdown) (trace t)"
  by (simp_all add: maybe_resume_protocol_def prim_defs Let_def split: option.splits reply.splits)

lemma limits_frame:
  "high_water (maybe_pause_protocol t) = high_water t"
  "low_water (maybe_pause_protocol t) = low_water t"
  "high_water (maybe_resume_protocol t) = high_water t"
  "low_water (maybe_resume_protocol t) = low_water t"
  by (simp_all add: maybe_pause_protocol_def maybe_resume_protocol_def prim_defs Let_def
      split: option.splits reply.splits)

lemma c_int_minus_one: "c_int (- 1)"
  by (simp add: c_int_def)

lemma on_write_lost:
  "filter is_lost (trace (snd (on_write t))) =
     filter is_lost (trace t) @
     (if write_buffer_size t = 0 \<and> closing t \<and> \<not> closed t \<and> protocol_connected t
         \<and> protocol t \<noteq> None
      then [CB (ConnectionLost None)] else [])"
  by (simp add: on_write_def Let_def get_write_buffer_size_def maybe_resume_protocol_frame
      call_connection_lost_def invoke_def emit_def handle_close_def server_detach_def shutdown_def
      split: option.splits reply.splits)

lemma on_write_ready: "ready (snd (on_write t)) = ready t"
  by (simp add: on_write_def Let_def get_write_buffer_size_def maybe_resume_protocol_frame
      call_connection_lost_def invoke_def emit_def handle_close_def server_detach_def shutdown_def
      split: option.splits reply.splits)

lemma on_write_closed:
  "closed (snd (on_write t)) = (closed t \<or> write_buffer_size t = 0 \<and> closing t)"
  by (simp add: on_write_def Let_def get_write_buffer_size_def maybe_resume_protocol_frame
      call_connection_lost_def invoke_def emit_def handle_close_def server_detach_def shutdown_def
      split: option.splits reply.splits)

lemma on_write_shutdown:
  "filter ((=) Shutdown) (trace (snd (on_write t))) =
     filter ((=) Shutdown) (trace t) @
     (if write_buffer_size t = 0 \<and> \<not> closing t \<and> eof t then [Shutdown] else [])"
  by (simp add: on_write_def Let_def get_write_buffer_size_def maybe_resume_protocol_frame
      call_connection_lost_def invoke_def emit_def handle_close_def server_detach_def shutdown_def
      split: option.splits reply.splits)

lemma on_write_flags:
  "closing (snd (on_write t)) = closing t"
  "eof (snd (on_write t)) = eof t"
  by (simp_all add: on_write_def Let_def get_write_buffer_size_def maybe_resume_protocol_frame
      call_connection_lost_def invoke_def emit_def handle_close_def server_detach_def shutdown_def
      split: option.splits reply.splits)

lemma call_connection_lost_lost:
  "filter is_lost (trace (snd (call_connection_lost exc t))) =
     filter is_lost (trace t) @
     (if \<not> closed t \<and> protocol_connected t \<and> protocol t \<noteq> None
      then [CB (ConnectionLost exc)] else [])"
  by (simp add: call_connection_lost_def prim_defs Let_def split: option.splits reply.splits)

lemma call_connection_made_lost:
  "filter is_lost (trace (snd (call_connection_made t))) = filter is_lost (trace t)"
  by (simp add: call_connection_made_def prim_defs split: option.splits reply.splits)

lemma run_ready_lost:
  "filter is_lost (trace (snd (run_ready t))) =
     filter is_lost (trace t) @
     (case ready t of
        CallConnectionLost exc # hs \<Rightarrow>
          if \<not> closed t \<and> protocol_connected t \<and> protocol t \<noteq> None
          then [CB (ConnectionLost exc)] else []
      | _ \<Rightarrow> [])"
proof (cases "ready t")
  case Nil
  then show ?thesis by (simp add: run_ready_def)
next
  case (Cons h hs)
  then show ?thesis
    by (cases h)
      (simp_all add: run_ready_def call_connection_lost_lost call_connection_made_lost)
qed

section \<open>The concrete transports, evaluated\<close>

lemma connected_quiet:
  "connected quiet =
    \<lparr>protocol = Some quiet, protocol_data_received = Some quiet,
      protocol_connected = True, protocol_paused = False,
      eof = False, closing = False, conn_lost = 0,
      flow_control_enabled = True,
      high_water = 65536, low_water = 16384,
      server = Some 7,
      closed = False, reading = True, write_buffer_size = 0, ready = [],
      trace = [Attach 7, CB ConnectionMade, StartReading]\<rparr>"
  by (simp add: connected_def cinit_def uv_constants_def set_protocol_def set_server_def on_accept_def
     run_ready_def call_connection_made_def prim_defs quiet_def)

section \<open>Flow control\<close>

lemma maybe_pause_protocol_idem:
  "maybe_pause_protocol (maybe_pause_protocol t) = maybe_pause_protocol t"
  by (simp add: maybe_pause_protocol_def prim_defs Let_def split: option.splits reply.splits)

text \<open>
  Against claim C2 as it is stated: a transport without a protocol. On a fresh transport
  with limits 2 and 1, \<open>write\<close> of three bytes enqueues them and runs the pause check:
  flow control is enabled, the size is above \<open>high_water\<close>, the mark is not set; the check
  sets the mark and \<open>pause_writing\<close> is not invoked, the failed lookup on \<open>None\<close> goes to
  the exception handler. The completion of the write then clears the mark, and
  \<open>resume_writing\<close> is not invoked either.
\<close>

theorem pause_without_protocol_counterexample:
  "protocol (UVStream_write [1, 2, 3]
      (run uv_constants [SetWriteBufferLimits (Some 2) (Some 1)] (cinit uv_constants))) = None \<and>
   flow_control_enabled (UVStream_write [1, 2, 3]
      (run uv_constants [SetWriteBufferLimits (Some 2) (Some 1)] (cinit uv_constants))) \<and>
   high_water (UVStream_write [1, 2, 3]
      (run uv_constants [SetWriteBufferLimits (Some 2) (Some 1)] (cinit uv_constants)))
     < int (get_write_buffer_size (UVStream_write [1, 2, 3]
      (run uv_constants [SetWriteBufferLimits (Some 2) (Some 1)] (cinit uv_constants)))) \<and>
   \<not> protocol_paused (UVStream_write [1, 2, 3]
      (run uv_constants [SetWriteBufferLimits (Some 2) (Some 1)] (cinit uv_constants))) \<and>
   protocol_paused (maybe_pause_protocol (UVStream_write [1, 2, 3]
      (run uv_constants [SetWriteBufferLimits (Some 2) (Some 1)] (cinit uv_constants)))) \<and>
   trace (maybe_pause_protocol (UVStream_write [1, 2, 3]
      (run uv_constants [SetWriteBufferLimits (Some 2) (Some 1)] (cinit uv_constants)))) =
     [HandleWrite [1, 2, 3], ExcHandler ''protocol.pause_writing() failed'' AttributeError] \<and>
   trace (run uv_constants [SetWriteBufferLimits (Some 2) (Some 1), Write [1, 2, 3]]
      (cinit uv_constants)) =
     [HandleWrite [1, 2, 3], ExcHandler ''protocol.pause_writing() failed'' AttributeError] \<and>
   protocol_paused (run uv_constants [SetWriteBufferLimits (Some 2) (Some 1), Write [1, 2, 3]]
      (cinit uv_constants)) \<and>
   trace (run uv_constants
      [SetWriteBufferLimits (Some 2) (Some 1), Write [1, 2, 3], WriteCompleted 3]
      (cinit uv_constants)) =
     [HandleWrite [1, 2, 3], ExcHandler ''protocol.pause_writing() failed'' AttributeError,
      ExcHandler ''protocol.resume_writing() failed'' AttributeError] \<and>
   \<not> protocol_paused (run uv_constants
      [SetWriteBufferLimits (Some 2) (Some 1), Write [1, 2, 3], WriteCompleted 3]
      (cinit uv_constants))"
  by (simp add: api_defs prim_defs)

text \<open>
  Claim C2, amended. For every transport state, the pause check sets the paused mark
  exactly when flow control is enabled, the buffered size is above \<open>high_water\<close> and the
  mark is not set; otherwise it leaves the transport as it is. When it sets the mark it
  invokes \<open>pause_writing\<close> once if a protocol is bound (an exception of the callback goes
  to the exception handler); with no protocol bound it invokes nothing and the failed
  attribute lookup goes to the exception handler. The resume check clears the mark
  exactly when flow control is enabled, the mark is set and the buffered size is at most
  \<open>low_water\<close>, and invokes \<open>resume_writing\<close> in the same way.
\<close>

theorem pause_resume_checks:
  "maybe_pause_protocol t =
     (if flow_control_enabled t \<and> high_water t < int (get_write_buffer_size t)
          \<and> \<not> protocol_paused t
      then t\<lparr>protocol_paused := True,
             trace := trace t @
               (case protocol t of
                  None \<Rightarrow> [ExcHandler ''protocol.pause_writing() failed'' AttributeError]
                | Some p \<Rightarrow> CB PauseWriting #
                    (case p (trace t) PauseWriting of
                       Raise exc \<Rightarrow> [ExcHandler ''protocol.pause_writing() failed'' exc]
                     | Ret r \<Rightarrow> []))\<rparr>
      else t) \<and>
   maybe_resume_protocol t =
     (if flow_control_enabled t \<and> protocol_paused t
          \<and> int (get_write_buffer_size t) \<le> low_water t
      then t\<lparr>protocol_paused := False,
             trace := trace t @
               (case protocol t of
                  None \<Rightarrow> [ExcHandler ''protocol.resume_writing() failed'' AttributeError]
                | Some p \<Rightarrow> CB ResumeWriting #
                    (case p (trace t) ResumeWriting of
                       Raise exc \<Rightarrow> [ExcHandler ''protocol.resume_writing() failed'' exc]
                     | Ret r \<Rightarrow> []))\<rparr>
      else t)"
  by (simp add: maybe_pause_protocol_def maybe_resume_protocol_def prim_defs Let_def
      split: option.splits reply.splits)

theorem pause_resume_checks_witness:
  "maybe_pause_protocol ((connected quiet)\<lparr>write_buffer_size := 70000\<rparr>) =
     (connected quiet)\<lparr>write_buffer_size := 70000, protocol_paused := True,
        trace := [Attach 7, CB ConnectionMade, StartReading, CB PauseWriting]\<rparr> \<and>
   maybe_resume_protocol ((connected quiet)\<lparr>write_buffer_size := 16384, protocol_paused := True\<rparr>) =
     (connected quiet)\<lparr>write_buffer_size := 16384, protocol_paused := False,
        trace := [Attach 7, CB ConnectionMade, StartReading, CB ResumeWriting]\<rparr> \<and>
   maybe_pause_protocol ((connected quiet)\<lparr>write_buffer_size := 65536\<rparr>) =
     (connected quiet)\<lparr>write_buffer_size := 65536\<rparr> \<and>
   maybe_resume_protocol ((connected quiet)\<lparr>write_buffer_size := 16385, protocol_paused := True\<rparr>) =
     (connected quiet)\<lparr>write_buffer_size := 16385, protocol_paused := True\<rparr> \<and>
   maybe_pause_protocol ((connected lost_raises)\<lparr>write_buffer_size := 70000, protocol := None\<rparr>) =
     (connected lost_raises)\<lparr>write_buffer_size := 70000, protocol := None, protocol_paused := True,
        trace := [Attach 7, CB ConnectionMade, StartReading,
                  ExcHandler ''protocol.pause_writing() failed'' AttributeError]\<rparr>"
  using pause_resume_checks [of "(connected quiet)\<lparr>write_buffer_size := 70000\<rparr>"]
    pause_resume_checks [of "(connected quiet)\<lparr>write_buffer_size := 16384, protocol_paused := True\<rparr>"]
    pause_resume_checks [of "(connected quiet)\<lparr>write_buffer_size := 65536\<rparr>"]
    pause_resume_checks [of "(connected quiet)\<lparr>write_buffer_size := 16385, protocol_paused := True\<rparr>"]
    pause_resume_checks [of "(connected lost_raises)\<lparr>write_buffer_size := 70000, protocol := None\<rparr>"]
  by (simp add: connected_quiet connected_def api_defs prim_defs)

section \<open>Writing\<close>




section \<open>Lifecycle callbacks\<close>

text \<open>
  Claim C1. On a fresh transport, after any sequence of operations (public methods,
  hooks of the stream handle, binding calls, turns of the loop): \<open>connection_lost\<close> has
  been invoked at most once; wherever it stands in the trace, \<open>connection_made\<close> was
  invoked before it; and a transport whose final teardown has run (the handle is closed)
  without \<open>connection_made\<close> having been invoked never gets \<open>connection_lost\<close>,
  whatever happens later.
\<close>

theorem connection_lost_once_after_made:
  "length (filter is_lost (trace (run c ops (cinit c)))) \<le> 1 \<and>
   (\<forall>pre x post. trace (run c ops (cinit c)) = pre @ CB (ConnectionLost x) # post
       \<longrightarrow> CB ConnectionMade \<in> set pre) \<and>
   (\<forall>more. closed (run c ops (cinit c)) \<and> CB ConnectionMade \<notin> set (trace (run c ops (cinit c)))
       \<longrightarrow> filter is_lost (trace (run c more (run c ops (cinit c)))) = [])"
proof -
  let ?t = "run c ops (cinit c)"
  have i: "lifecycle_inv ?t" using inv_cinit by (rule inv_run)
  then have a: "length (filter is_lost (trace ?t)) \<le> 1"
    by (simp add: lifecycle_inv_def)
  from i have m: "made_before_lost False (trace ?t)" by (simp add: lifecycle_inv_def)
  have b: "CB ConnectionMade \<in> set pre" if "trace ?t = pre @ CB (ConnectionLost x) # post" for pre x post
    using m made_before_lost_split [of False pre x post] that by simp
  have c: "filter is_lost (trace (run c more ?t)) = []"
    if cl: "closed ?t" and nm: "CB ConnectionMade \<notin> set (trace ?t)" for more
  proof -
    have "filter is_lost (trace ?t) = []"
    proof (rule ccontr)
      assume "filter is_lost (trace ?t) \<noteq> []"
      then obtain e where "e \<in> set (trace ?t)" and "is_lost e"
        by (auto simp: filter_empty_conv)
      then obtain pre post where "trace ?t = pre @ e # post"
        by (auto dest: split_list)
      moreover from \<open>is_lost e\<close> obtain x where "e = CB (ConnectionLost x)"
        by (cases e rule: is_lost.cases) auto
      ultimately have "CB ConnectionMade \<in> set pre" using b by blast
      with \<open>trace ?t = pre @ e # post\<close> nm show False by simp
    qed
    with sealed_run [OF cl, of c more] show ?thesis by (simp add: sealed_def)
  qed
  from a b c show ?thesis by blast
qed

theorem connection_lost_once_after_made_witness:
  "trace (run uv_constants [SetProtocol quiet, OnAccept, RunReady, Close, RunReady] (cinit uv_constants)) =
     [CB ConnectionMade, StartReading, StopReading] @ CB (ConnectionLost None) # [HandleClose] \<and>
   CB ConnectionMade \<in> set [CB ConnectionMade, StartReading, StopReading] \<and>
   closed (run uv_constants [SetProtocol quiet, Abort, RunReady] (cinit uv_constants)) \<and>
   CB ConnectionMade \<notin> set (trace (run uv_constants [SetProtocol quiet, Abort, RunReady] (cinit uv_constants))) \<and>
   filter is_lost (trace (run uv_constants [OnAccept, RunReady, Close, Abort, RunReady, WriteCompleted 0]
      (run uv_constants [SetProtocol quiet, Abort, RunReady] (cinit uv_constants)))) = []"
  using connection_lost_once_after_made [of uv_constants "[SetProtocol quiet, OnAccept, RunReady, Close, RunReady]"]
    connection_lost_once_after_made [of uv_constants "[SetProtocol quiet, Abort, RunReady]"]
  by (simp add: api_defs prim_defs)

text \<open>
  Claim C10. Whenever \<open>connection_lost\<close> is invoked its argument is \<open>None\<close>: on a fresh
  transport, after any sequence of operations, every \<open>connection_lost\<close> in the trace
  and every deferred \<open>_call_connection_lost\<close> in the loop's queue carries \<open>None\<close>. The
  fatal-error path and force-close with an exception defer nothing but
  \<open>_call_connection_lost(None)\<close>: the exception is dropped.
\<close>

theorem teardown_argument_is_none:
  "(\<forall>x. CB (ConnectionLost x) \<in> set (trace (run c ops (cinit c))) \<longrightarrow> x = None) \<and>
   (\<forall>x. CallConnectionLost x \<in> set (ready (run c ops (cinit c))) \<longrightarrow> x = None) \<and>
   set (ready (fatal_error exc throw t)) \<subseteq> insert (CallConnectionLost None) (set (ready t)) \<and>
   set (ready (force_close (Some exc) t)) \<subseteq> insert (CallConnectionLost None) (set (ready t))"
proof -
  have "lifecycle_inv (run c ops (cinit c))" using inv_cinit by (rule inv_run)
  moreover have "set (ready (force_close e u)) \<subseteq> insert (CallConnectionLost None) (set (ready u))" for e u
    by (auto simp: force_close_def prim_defs Let_def)
  moreover
  have "set (ready (fatal_error exc throw t)) \<subseteq> insert (CallConnectionLost None) (set (ready t))"
    by (auto simp: fatal_error_def force_close_def Let_def prim_defs)
  ultimately show ?thesis
    by (simp add: lifecycle_inv_def)
qed

theorem teardown_argument_is_none_witness:
  "CB (ConnectionLost None) \<in> set (trace (run uv_constants [FatalError (OtherError 5) False, RunReady] (connected quiet))) \<and>
   CB (ConnectionLost (Some (OtherError 5))) \<notin> set (trace (run uv_constants [FatalError (OtherError 5) False, RunReady] (connected quiet))) \<and>
   ready (run uv_constants [FatalError (OtherError 5) False] (connected quiet)) = [CallConnectionLost None]"
  using teardown_argument_is_none [of uv_constants
      "[SetProtocol quiet, SetServer 7, OnAccept, RunReady, FatalError (OtherError 5) False, RunReady]"]
  by (simp add: connected_quiet api_defs prim_defs)

text \<open>
  Claim C8. When the final teardown runs on a transport that is not closed, then whatever
  \<open>connection_lost\<close> does (return or raise; the outcome of the routine is the callback's)
  the protocol reference and the stored bound method are cleared, the listener, if there
  is one, is detached exactly once and forgotten, and the handle is closed, in this
  order. Over the whole life of a transport a detach happens at most once.
\<close>

theorem teardown_cleanup:
  "(\<not> closed t \<longrightarrow>
      protocol (snd (call_connection_lost exc t)) = None \<and>
      protocol_data_received (snd (call_connection_lost exc t)) = None \<and>
      server (snd (call_connection_lost exc t)) = None \<and>
      closed (snd (call_connection_lost exc t)) \<and>
      trace (snd (call_connection_lost exc t)) =
        trace t @
        (if protocol_connected t \<and> protocol t \<noteq> None then [CB (ConnectionLost exc)] else []) @
        (case server t of None \<Rightarrow> [] | Some s \<Rightarrow> [Detach s]) @
        [HandleClose] \<and>
      fst (call_connection_lost exc t) =
        (if protocol_connected t then
           (case protocol t of
              None \<Rightarrow> Raised AttributeError
            | Some p \<Rightarrow> (case p (trace t) (ConnectionLost exc) of
                          Raise e \<Rightarrow> Raised e | Ret r \<Rightarrow> Returned))
         else Returned)) \<and>
   length (filter is_detach (trace (run c ops (cinit c)))) \<le> 1"
proof -
  have "lifecycle_inv (run c ops (cinit c))" using inv_cinit by (rule inv_run)
  then have "length (filter is_detach (trace (run c ops (cinit c)))) \<le> 1"
    by (simp add: lifecycle_inv_def)
  then show ?thesis
    by (simp add: call_connection_lost_def prim_defs Let_def split: option.splits reply.splits)
qed

theorem teardown_cleanup_witness:
  "\<not> closed (connected lost_raises) \<and>
   call_connection_lost None (connected lost_raises) =
     (Raised (OtherError 1),
      (connected lost_raises)\<lparr>protocol := None, protocol_data_received := None, server := None,
         closed := True,
         trace := [Attach 7, CB ConnectionMade, StartReading, CB (ConnectionLost None), Detach 7, HandleClose]\<rparr>)"
  using teardown_cleanup [of "connected lost_raises" None]
  by (simp add: connected_def api_defs prim_defs)

section \<open>How \<open>connection_lost\<close> is delivered\<close>

text \<open>
  Against claim C3 as it is stated: the write-completion hook calls
  \<open>_call_connection_lost\<close> itself. Here three bytes are pending when \<open>close()\<close> is
  called: nothing is deferred, and the completion of the write invokes \<open>connection_lost\<close>
  inside the hook.
\<close>

theorem connection_lost_inline_counterexample:
  "ready (run uv_constants [Write [1, 2, 3], Close] (connected quiet)) = [] \<and>
   filter is_lost (trace (run uv_constants [Write [1, 2, 3], Close] (connected quiet))) = [] \<and>
   filter is_lost (trace (snd (exec uv_constants (WriteCompleted 3)
      (run uv_constants [Write [1, 2, 3], Close] (connected quiet))))) = [CB (ConnectionLost None)]"
  by (simp add: connected_quiet api_defs prim_defs)

text \<open>
  Claim C3, amended. No public method and no hook other than the write-completion hook
  invokes \<open>connection_lost\<close>: besides that hook only a turn of the loop does, when the
  call it runs is a deferred \<open>_call_connection_lost\<close>. \<open>close()\<close> with an empty buffer
  and, on a transport that has not lost its connection and is not closed, \<open>abort()\<close> and
  the fatal-error path (both through force-close) defer \<open>_call_connection_lost(None)\<close>
  through the loop. The write-completion hook defers
  nothing; it runs the final teardown inline, and so invokes \<open>connection_lost\<close>, exactly
  when the buffer is empty on a closing transport that is not closed, was connected and
  has its protocol.
\<close>

theorem connection_lost_deferred_or_drained:
  "(x \<noteq> RunReady \<and> (\<forall>n. x \<noteq> WriteCompleted n) \<longrightarrow>
      filter is_lost (trace (snd (exec c x t))) = filter is_lost (trace t)) \<and>
   filter is_lost (trace (snd (on_write t))) =
     filter is_lost (trace t) @
     (if write_buffer_size t = 0 \<and> closing t \<and> \<not> closed t \<and> protocol_connected t
         \<and> protocol t \<noteq> None
      then [CB (ConnectionLost None)] else []) \<and>
   ready (snd (on_write t)) = ready t \<and>
   filter is_lost (trace (snd (run_ready t))) =
     filter is_lost (trace t) @
     (case ready t of
        CallConnectionLost e # hs \<Rightarrow>
          if \<not> closed t \<and> protocol_connected t \<and> protocol t \<noteq> None
          then [CB (ConnectionLost e)] else []
      | _ \<Rightarrow> []) \<and>
   ready (snd (close t)) =
     (if \<not> closing t \<and> \<not> closed t \<and> write_buffer_size t = 0
      then ready t @ [CallConnectionLost None] else ready t) \<and>
   ready (force_close exc t) =
     (if conn_lost t = 0 \<and> \<not> closed t then ready t @ [CallConnectionLost None] else ready t) \<and>
   ready (snd (abort t)) =
     (if conn_lost t = 0 \<and> \<not> closed t then ready t @ [CallConnectionLost None] else ready t) \<and>
   ready (fatal_error err throw t) =
     (if conn_lost t = 0 \<and> \<not> closed t then ready t @ [CallConnectionLost None] else ready t)"
proof -
  have q: "quiet_step t (snd (exec c x t))" if "x \<noteq> RunReady" and "\<forall>n. x \<noteq> WriteCompleted n"
    using that
    by (cases x)
      (simp_all add: quiet_abort quiet_close quiet_transport_write quiet_writelines
        quiet_write_eof quiet_pause_reading quiet_resume_reading quiet_set_write_buffer_limits
        quiet_set_protocol quiet_set_server quiet_on_accept quiet_on_read quiet_on_eof
        quiet_fatal_error)
  have cl: "ready (snd (close t)) =
     (if \<not> closing t \<and> \<not> closed t \<and> write_buffer_size t = 0
      then ready t @ [CallConnectionLost None] else ready t)"
    by (simp add: close_def prim_defs Let_def)
  have fc: "ready (force_close exc t) =
     (if conn_lost t = 0 \<and> \<not> closed t then ready t @ [CallConnectionLost None] else ready t)"
    for exc
    by (simp add: force_close_def prim_defs Let_def)
  have ab: "ready (snd (abort t)) =
     (if conn_lost t = 0 \<and> \<not> closed t then ready t @ [CallConnectionLost None] else ready t)"
    by (simp add: abort_def fc)
  have fe: "ready (fatal_error err throw t) =
     (if conn_lost t = 0 \<and> \<not> closed t then ready t @ [CallConnectionLost None] else ready t)"
    by (simp add: fatal_error_def force_close_def prim_defs Let_def)
  from q cl fc [of exc] ab fe on_write_lost [of t] on_write_ready [of t] run_ready_lost [of t]
  show ?thesis
    by (simp add: quiet_step_def)
qed

theorem connection_lost_deferred_or_drained_witness:
  "Abort \<noteq> RunReady \<and> Abort \<noteq> WriteCompleted 0 \<and>
   FatalError (OtherError 5) False \<noteq> RunReady \<and>
   FatalError (OtherError 5) False \<noteq> WriteCompleted 0 \<and>
   filter is_lost (trace (snd (exec uv_constants Abort (connected quiet)))) = [] \<and>
   ready (snd (abort (connected quiet))) = [CallConnectionLost None] \<and>
   filter is_lost (trace (snd (exec uv_constants (FatalError (OtherError 5) False) (connected quiet)))) = [] \<and>
   ready (fatal_error (OtherError 5) False (connected quiet)) = [CallConnectionLost None] \<and>
   ready (fatal_error BrokenPipeError False (connected quiet)) = [CallConnectionLost None] \<and>
   ready (snd (close (connected quiet))) = [CallConnectionLost None] \<and>
   filter is_lost (trace (snd (run_ready (snd (abort (connected quiet)))))) = [CB (ConnectionLost None)] \<and>
   filter is_lost (trace (snd (run_ready (fatal_error (OtherError 5) False (connected quiet)))))
     = [CB (ConnectionLost None)]"
  using connection_lost_deferred_or_drained
      [where x = Abort and c = uv_constants and t = "connected quiet" and err = "OtherError 5"
         and throw = False and exc = None]
    connection_lost_deferred_or_drained
      [where x = "FatalError (OtherError 5) False" and c = uv_constants and t = "connected quiet"
         and err = BrokenPipeError and throw = False and exc = None]
    connection_lost_deferred_or_drained
      [where t = "snd (abort (connected quiet))" and x = Abort and c = uv_constants]
    connection_lost_deferred_or_drained
      [where t = "fatal_error (OtherError 5) False (connected quiet)" and x = Abort
         and c = uv_constants]
  by (simp add: connected_quiet api_defs prim_defs)

section \<open>\<open>close()\<close>\<close>

text \<open>
  Claim C4. \<open>close()\<close> returns the transport unchanged when it is closing or closed.
  Otherwise it marks it closing and stops reading; with an empty write buffer it also
  counts the loss and defers \<open>_call_connection_lost(None)\<close>; with a non-empty buffer it
  neither invokes nor defers anything, and the write-completion hook that follows runs the
  teardown (the handle is closed, \<open>connection_lost\<close> is invoked on a connected transport)
  exactly when the completed write empties the buffer. The same holds of the hook on any
  closing transport that is not closed, so also after writes that completed in part.
\<close>

theorem close_cases:
  "close t =
     (Returned,
      if closing t \<or> closed t then t
      else if write_buffer_size t = 0
        then t\<lparr>closing := True, reading := False, trace := trace t @ [StopReading],
               conn_lost := conn_lost t + 1, ready := ready t @ [CallConnectionLost None]\<rparr>
        else t\<lparr>closing := True, reading := False, trace := trace t @ [StopReading]\<rparr>) \<and>
   (\<not> closing t \<and> \<not> closed t \<and> 0 < write_buffer_size t \<longrightarrow>
      filter is_lost (trace (snd (close t))) = filter is_lost (trace t) \<and>
      ready (snd (close t)) = ready t \<and>
      filter is_lost (trace (snd (write_completed n (snd (close t))))) =
        filter is_lost (trace t) @
        (if write_buffer_size t \<le> n \<and> protocol_connected t \<and> protocol t \<noteq> None
         then [CB (ConnectionLost None)] else []) \<and>
      closed (snd (write_completed n (snd (close t)))) = (write_buffer_size t \<le> n) \<and>
      ready (snd (write_completed n (snd (close t)))) = ready t) \<and>
   (closing u \<and> \<not> closed u \<longrightarrow>
      closing (snd (write_completed n u)) \<and>
      closed (snd (write_completed n u)) = (write_buffer_size u \<le> n) \<and>
      filter is_lost (trace (snd (write_completed n u))) =
        filter is_lost (trace u) @
        (if write_buffer_size u \<le> n \<and> protocol_connected u \<and> protocol u \<noteq> None
         then [CB (ConnectionLost None)] else []))"
proof -
  have 1: "close t =
     (Returned,
      if closing t \<or> closed t then t
      else if write_buffer_size t = 0
        then t\<lparr>closing := True, reading := False, trace := trace t @ [StopReading],
               conn_lost := conn_lost t + 1, ready := ready t @ [CallConnectionLost None]\<rparr>
        else t\<lparr>closing := True, reading := False, trace := trace t @ [StopReading]\<rparr>)"
    by (simp add: close_def prim_defs Let_def)
  show ?thesis
    unfolding 1
    by (auto simp: write_completed_def on_write_lost on_write_closed on_write_ready on_write_flags)
qed

theorem close_cases_witness:
  "\<not> closing (snd (transport_write [1, 2, 3] (connected quiet))) \<and>
   \<not> closed (snd (transport_write [1, 2, 3] (connected quiet))) \<and>
   0 < write_buffer_size (snd (transport_write [1, 2, 3] (connected quiet))) \<and>
   trace (snd (close (snd (transport_write [1, 2, 3] (connected quiet))))) =
     [Attach 7, CB ConnectionMade, StartReading, HandleWrite [1, 2, 3], StopReading] \<and>
   ready (snd (close (snd (transport_write [1, 2, 3] (connected quiet))))) = [] \<and>
   filter is_lost (trace (snd (write_completed 2
      (snd (close (snd (transport_write [1, 2, 3] (connected quiet)))))))) = [] \<and>
   filter is_lost (trace (snd (write_completed 3
      (snd (close (snd (transport_write [1, 2, 3] (connected quiet)))))))) = [CB (ConnectionLost None)] \<and>
   ready (snd (close (connected quiet))) = [CallConnectionLost None] \<and>
   close (snd (close (connected quiet))) = (Returned, snd (close (connected quiet))) \<and>
   closing (snd (write_completed 2 (snd (close (snd (transport_write [1, 2, 3] (connected quiet))))))) \<and>
   \<not> closed (snd (write_completed 2 (snd (close (snd (transport_write [1, 2, 3] (connected quiet))))))) \<and>
   filter is_lost (trace (snd (write_completed 1 (snd (write_completed 2
      (snd (close (snd (transport_write [1, 2, 3] (connected quiet))))))))))
     = [CB (ConnectionLost None)]"
  using close_cases [of "snd (transport_write [1, 2, 3] (connected quiet))" 2 "connected quiet"]
    close_cases [of "snd (transport_write [1, 2, 3] (connected quiet))" 3 "connected quiet"]
    close_cases [of "connected quiet" 0 "connected quiet"]
    close_cases [of "snd (close (connected quiet))" 1
      "snd (write_completed 2 (snd (close (snd (transport_write [1, 2, 3] (connected quiet))))))"]
  by (simp add: connected_quiet api_defs prim_defs)

section \<open>\<open>write_eof()\<close>\<close>

text \<open>
  Against claim C7 as it is stated: on a closing transport the hook gives the teardown
  precedence. \<open>write_eof()\<close> called with a byte pending after \<open>close()\<close> marks the end
  of file, the buffer drains, and the handle is never shut down.
\<close>

theorem write_eof_while_closing_counterexample:
  "closing (run uv_constants [Write [1], Close] (connected quiet)) \<and>
   \<not> eof (run uv_constants [Write [1], Close] (connected quiet)) \<and>
   eof (run uv_constants [Write [1], Close, WriteEof] (connected quiet)) \<and>
   write_buffer_size (run uv_constants [Write [1], Close, WriteEof] (connected quiet)) = 1 \<and>
   write_buffer_size (run uv_constants [Write [1], Close, WriteEof, WriteCompleted 1] (connected quiet)) = 0 \<and>
   Shutdown \<notin> set (trace (run uv_constants [Write [1], Close, WriteEof, WriteCompleted 1] (connected quiet)))"
  by (simp add: connected_quiet api_defs prim_defs)

text \<open>
  Claim C7, amended. \<open>write_eof()\<close> does nothing when the end of file was requested
  before, so a second call is a no-op. The first call marks the request and, with an
  empty buffer, shuts the handle down at once; with a non-empty buffer it does nothing
  more, and the write-completion hook that follows shuts the handle down exactly when the
  completed write empties the buffer and the transport is not closing. The same holds of
  the hook on any transport with the end of file requested.
\<close>

theorem write_eof_cases:
  "write_eof t =
     (Returned,
      if eof t then t
      else if write_buffer_size t = 0 then t\<lparr>eof := True, trace := trace t @ [Shutdown]\<rparr>
      else t\<lparr>eof := True\<rparr>) \<and>
   write_eof (snd (write_eof t)) = (Returned, snd (write_eof t)) \<and>
   (\<not> eof t \<and> 0 < write_buffer_size t \<longrightarrow>
      filter ((=) Shutdown) (trace (snd (write_completed n (snd (write_eof t))))) =
        filter ((=) Shutdown) (trace t) @
        (if write_buffer_size t \<le> n \<and> \<not> closing t then [Shutdown] else [])) \<and>
   (eof u \<longrightarrow>
      eof (snd (write_completed n u)) \<and>
      filter ((=) Shutdown) (trace (snd (write_completed n u))) =
        filter ((=) Shutdown) (trace u) @
        (if write_buffer_size u \<le> n \<and> \<not> closing u then [Shutdown] else []))"
proof -
  have 1: "write_eof t =
     (Returned,
      if eof t then t
      else if write_buffer_size t = 0 then t\<lparr>eof := True, trace := trace t @ [Shutdown]\<rparr>
      else t\<lparr>eof := True\<rparr>)" for t
    by (simp add: write_eof_def prim_defs Let_def)
  have 2: "write_eof (snd (write_eof t)) = (Returned, snd (write_eof t))"
    by (simp add: 1)
  show ?thesis
    unfolding 2 unfolding 1
    by (auto simp: write_completed_def on_write_shutdown on_write_flags)
qed

theorem write_eof_cases_witness:
  "\<not> eof (snd (transport_write [1, 2, 3] (connected quiet))) \<and>
   0 < write_buffer_size (snd (transport_write [1, 2, 3] (connected quiet))) \<and>
   trace (snd (write_eof (snd (transport_write [1, 2, 3] (connected quiet))))) =
     [Attach 7, CB ConnectionMade, StartReading, HandleWrite [1, 2, 3]] \<and>
   trace (snd (write_completed 2 (snd (write_eof (snd (transport_write [1, 2, 3] (connected quiet))))))) =
     [Attach 7, CB ConnectionMade, StartReading, HandleWrite [1, 2, 3]] \<and>
   trace (snd (write_completed 3 (snd (write_eof (snd (transport_write [1, 2, 3] (connected quiet))))))) =
     [Attach 7, CB ConnectionMade, StartReading, HandleWrite [1, 2, 3], Shutdown] \<and>
   trace (snd (write_eof (connected quiet))) = [Attach 7, CB ConnectionMade, StartReading, Shutdown] \<and>
   eof (snd (write_completed 2 (snd (write_eof (snd (transport_write [1, 2, 3] (connected quiet))))))) \<and>
   trace (snd (write_completed 1 (snd (write_completed 2
      (snd (write_eof (snd (transport_write [1, 2, 3] (connected quiet))))))))) =
     [Attach 7, CB ConnectionMade, StartReading, HandleWrite [1, 2, 3], Shutdown]"
  using write_eof_cases [of "snd (transport_write [1, 2, 3] (connected quiet))" 2 "connected quiet"]
    write_eof_cases [of "snd (transport_write [1, 2, 3] (connected quiet))" 3 "connected quiet"]
    write_eof_cases [of "connected quiet" 1
      "snd (write_completed 2 (snd (write_eof (snd (transport_write [1, 2, 3] (connected quiet))))))"]
  by (simp add: connected_quiet api_defs prim_defs)

section \<open>\<open>set_write_buffer_limits\<close>\<close>

text \<open>
  Against claim C6 as it is stated: with only \<open>low\<close> given, \<open>high\<close> becomes the
  low-water constant, not the high-water one.
\<close>

theorem high_default_counterexample:
  "fst (set_write_buffer_limits uv_constants None (Some 100) (cinit uv_constants)) = Returned \<and>
   high_water (snd (set_write_buffer_limits uv_constants None (Some 100) (cinit uv_constants))) = 16384 \<and>
   low_water (snd (set_write_buffer_limits uv_constants None (Some 100) (cinit uv_constants))) = 100 \<and>
   FLOW_CONTROL_HIGH_WATER uv_constants = 65536"
  by (simp add: api_defs prim_defs)

text \<open>
  Claim C6, amended. For arguments that convert to C \<open>int\<close>s, \<open>None\<close> and \<open>-1\<close> counting
  as not given: \<open>high\<close> not given becomes the high-water constant when \<open>low\<close> is not given
  either and the low-water constant when \<open>low\<close> is given; \<open>low\<close> not given becomes a
  quarter, rounded down, of \<open>high\<close> as it then stands. If these two values pass the check
  they are the new limits; if not they are the ones the error reports.
\<close>

theorem write_buffer_limit_defaults:
  assumes "fits_c_int high" and "fits_c_int low"
  shows "(let h = given_or (if unspecified low then FLOW_CONTROL_HIGH_WATER c
                            else FLOW_CONTROL_LOW_WATER c) high;
              l = given_or (h div 4) low
          in if l \<le> h \<and> 0 \<le> l
             then fst (set_write_buffer_limits c high low t) = Returned \<and>
                  high_water (snd (set_write_buffer_limits c high low t)) = h \<and>
                  low_water (snd (set_write_buffer_limits c high low t)) = l
             else set_write_buffer_limits c high low t = (Raised (ValueError h l), t))"
  using assms
  by (cases high; cases low)
    (auto simp: set_write_buffer_limits_def set_write_buffer_limits_cdef_def Let_def
      limits_frame c_int_minus_one)

theorem write_buffer_limit_defaults_witness:
  "fits_c_int None \<and> fits_c_int (Some 100) \<and> fits_c_int (Some 200) \<and>
   get_write_buffer_limits (snd (set_write_buffer_limits uv_constants None None (connected quiet))) = (16384, 65536) \<and>
   get_write_buffer_limits (snd (set_write_buffer_limits uv_constants None (Some 100) (connected quiet))) = (100, 16384) \<and>
   get_write_buffer_limits (snd (set_write_buffer_limits uv_constants (Some 200) None (connected quiet))) = (50, 200) \<and>
   get_write_buffer_limits (snd (set_write_buffer_limits uv_constants (Some 200) (Some 100) (connected quiet))) = (100, 200)"
  using write_buffer_limit_defaults [of None None uv_constants "connected quiet"]
    write_buffer_limit_defaults [of None "Some 100" uv_constants "connected quiet"]
    write_buffer_limit_defaults [of "Some 200" None uv_constants "connected quiet"]
    write_buffer_limit_defaults [of "Some 200" "Some 100" uv_constants "connected quiet"]
  by (simp add: get_write_buffer_limits_def c_int_def uv_constants_def)

text \<open>
  Claim C9. For arguments that convert to C \<open>int\<close>s, \<open>set_write_buffer_limits\<close> raises
  the \<open>ValueError\<close> if and only if \<open>high >= low >= 0\<close> fails for the values the
  defaulting of the code leaves (\<open>-1\<close> is its mark for "not given"), and returns if and
  only if it holds; whenever it does not return, the transport, with both limits, is as
  it was. \<open>high = 10\<close>, \<open>low = 20\<close> raises.
\<close>

theorem write_buffer_limits_rejected:
  assumes "fits_c_int high" and "fits_c_int low"
  shows "(let high0 = (case high of None \<Rightarrow> - 1 | Some n \<Rightarrow> n);
              low0 = (case low of None \<Rightarrow> - 1 | Some n \<Rightarrow> n);
              h = (if high0 = - 1
                   then (if low0 = - 1 then FLOW_CONTROL_HIGH_WATER c
                         else FLOW_CONTROL_LOW_WATER c)
                   else high0);
              l = (if low0 = - 1 then h div 4 else low0)
          in (fst (set_write_buffer_limits c high low t) = Raised (ValueError h l)
                \<longleftrightarrow> \<not> (h \<ge> l \<and> l \<ge> 0)) \<and>
             (fst (set_write_buffer_limits c high low t) = Returned
                \<longleftrightarrow> (h \<ge> l \<and> l \<ge> 0)) \<and>
             (fst (set_write_buffer_limits c high low t) \<noteq> Returned
                \<longrightarrow> snd (set_write_buffer_limits c high low t) = t)) \<and>
         set_write_buffer_limits c (Some 10) (Some 20) t = (Raised (ValueError 10 20), t)"
  using assms
  by (cases high; cases low)
    (auto simp: set_write_buffer_limits_def set_write_buffer_limits_cdef_def Let_def
      c_int_def)

theorem write_buffer_limits_rejected_witness:
  "fits_c_int (Some 10) \<and> fits_c_int (Some 20) \<and> fits_c_int (Some 30) \<and> fits_c_int (Some (- 5)) \<and>
   set_write_buffer_limits uv_constants (Some 10) (Some 20) (connected quiet) =
     (Raised (ValueError 10 20), connected quiet) \<and>
   set_write_buffer_limits uv_constants (Some 30) (Some (- 5)) (connected quiet) =
     (Raised (ValueError 30 (- 5)), connected quiet) \<and>
   fst (set_write_buffer_limits uv_constants (Some 30) (Some 20) (connected quiet)) = Returned \<and>
   get_write_buffer_limits (snd (set_write_buffer_limits uv_constants (Some 30) (Some 20) (connected quiet))) = (20, 30) \<and>
   set_write_buffer_limits uv_constants None (Some 20000) (connected quiet) =
     (Raised (ValueError 16384 20000), connected quiet)"
  using write_buffer_limits_rejected [of "Some 10" "Some 20" uv_constants "connected quiet"]
    write_buffer_limits_rejected [of "Some 30" "Some (- 5)" uv_constants "connected quiet"]
    write_buffer_limits_rejected [of "Some 30" "Some 20" uv_constants "connected quiet"]
    write_buffer_limits_rejected [of None "Some 20000" uv_constants "connected quiet"]
  by (simp add: get_write_buffer_limits_def connected_quiet api_defs prim_defs)

end
